theory Spec2Isabelle
  imports Main "HOL-Library.Multiset"
begin

section \<open>Python text\<close>

text \<open>
  A Python \<open>str\<close> is a sequence of Unicode code points; it is modelled as a list of
  natural numbers, one per code point, so that \<open>length\<close> counts what \<open>len\<close> counts.
  \<open>lit\<close> turns an ASCII literal of the source into that form.  The text of a file is the
  string that \<open>read_text\<close> returns and \<open>write_text\<close> was given.
\<close>

type_synonym pystr = "nat list"

definition lit :: "string \<Rightarrow> pystr" where
  "lit s = map of_char s"

text \<open>\<open>str.isspace\<close> of one code point: the whitespace table of CPython.\<close>

definition py_isspace :: "nat \<Rightarrow> bool" where
  "py_isspace c =
     ((9 \<le> c \<and> c \<le> 13) \<or> (28 \<le> c \<and> c \<le> 32) \<or> c = 133 \<or> c = 160 \<or> c = 5760
      \<or> (8192 \<le> c \<and> c \<le> 8202) \<or> c = 8232 \<or> c = 8233 \<or> c = 8239 \<or> c = 8287
      \<or> c = 12288)"

text \<open>\<open>s.strip()\<close>: whitespace removed at both ends.\<close>

definition py_strip :: "pystr \<Rightarrow> pystr" where
  "py_strip s = rev (dropWhile py_isspace (rev (dropWhile py_isspace s)))"

text \<open>\<open>s.rstrip()\<close>: whitespace removed at the end.\<close>

definition py_rstrip :: "pystr \<Rightarrow> pystr" where
  "py_rstrip s = rev (dropWhile py_isspace (rev s))"

text \<open>
  \<open>s.split(sep)\<close> for a separator of one code point: the pieces between the separators,
  never the empty list.  \<open>extend_first\<close> puts a code point in front of the first piece.
\<close>

fun extend_first :: "nat \<Rightarrow> pystr list \<Rightarrow> pystr list" where
  "extend_first c [] = [[c]]"
| "extend_first c (piece # pieces) = (c # piece) # pieces"

fun py_split :: "nat \<Rightarrow> pystr \<Rightarrow> pystr list" where
  "py_split sep [] = [[]]"
| "py_split sep (c # cs) =
     (if c = sep then [] # py_split sep cs else extend_first c (py_split sep cs))"

text \<open>\<open>sep.join(parts)\<close>.\<close>

fun py_join :: "pystr \<Rightarrow> pystr list \<Rightarrow> pystr" where
  "py_join sep [] = []"
| "py_join sep [x] = x"
| "py_join sep (x # y # ys) = x @ sep @ py_join sep (y # ys)"

text \<open>\<open>s.startswith(prefix)\<close>.\<close>

definition py_startswith :: "pystr \<Rightarrow> pystr \<Rightarrow> bool" where
  "py_startswith s prefix = (take (length prefix) s = prefix)"

text \<open>\<open>str(n)\<close> of an integer: decimal digits, a minus sign for a negative number.\<close>

fun nat_digits :: "nat \<Rightarrow> pystr" where
  "nat_digits n = (if n < 10 then [48 + n] else nat_digits (n div 10) @ [48 + n mod 10])"

declare nat_digits.simps [simp del]

definition py_str :: "int \<Rightarrow> pystr" where
  "py_str n = (if n < 0 then 45 # nat_digits (nat (- n)) else nat_digits (nat n))"

text \<open>The format \<open>{n:02d}\<close>: \<open>str(n)\<close>, padded with a zero to two characters.\<close>

definition fmt02 :: "int \<Rightarrow> pystr" where
  "fmt02 n = (if length (py_str n) < 2 then 48 # py_str n else py_str n)"

text \<open>
  \<open>int(s)\<close> of a string, \<open>None\<close> where Python raises \<open>ValueError\<close>: whitespace at
  both ends is dropped, one sign is allowed, and the digits may be grouped by single
  underscores.  \<open>int\<close> skips the whitespace of \<open>str.isspace\<close> except the separators
  U+001C to U+001F.  The digits are the ASCII ones; the decimal digits of other scripts,
  which \<open>int\<close> also reads, and the interpreter's limit on the number of digits are left
  out.
\<close>

definition int_isspace :: "nat \<Rightarrow> bool" where
  "int_isspace c = (py_isspace c \<and> \<not> (28 \<le> c \<and> c \<le> 31))"

definition is_digit :: "nat \<Rightarrow> bool" where
  "is_digit c = (48 \<le> c \<and> c \<le> 57)"

fun py_digits :: "nat \<Rightarrow> pystr \<Rightarrow> nat option" where
  "py_digits acc [] = Some acc"
| "py_digits acc [c] = (if is_digit c then Some (acc * 10 + (c - 48)) else None)"
| "py_digits acc (c # d # ds) =
     (if is_digit c then py_digits (acc * 10 + (c - 48)) (d # ds)
      else if c = 95 \<and> is_digit d then py_digits (acc * 10 + (d - 48)) ds
      else None)"

definition py_nat_literal :: "pystr \<Rightarrow> nat option" where
  "py_nat_literal s =
     (case s of [] \<Rightarrow> None
      | c # cs \<Rightarrow> if is_digit c then py_digits (c - 48) cs else None)"

definition py_int :: "pystr \<Rightarrow> int option" where
  "py_int s =
     (case rev (dropWhile int_isspace (rev (dropWhile int_isspace s))) of [] \<Rightarrow> None
      | c # cs \<Rightarrow>
          if c = 45 then map_option (\<lambda>n. - int n) (py_nat_literal cs)
          else if c = 43 then map_option int (py_nat_literal cs)
          else map_option int (py_nat_literal (c # cs)))"

section \<open>Project: the card files and the order file\<close>

text \<open>
  The part of the file system a \<open>Project\<close> works on: the text of \<open>.cardorder\<close>
  (\<open>None\<close> when the file does not exist) and the files of the \<open>cards\<close> directory, by
  file name.
\<close>

record project =
  name :: pystr
  order_file :: "pystr option"
  cards :: "pystr \<rightharpoonup> pystr"

definition card_file :: "int \<Rightarrow> pystr" where
  "card_file card_num = fmt02 card_num @ lit ''.md''"

definition default_order :: "int list" where
  "default_order = [1..70]"

definition load_card_order :: "project \<Rightarrow> int list" where
  "load_card_order p =
     (case order_file p of
        None \<Rightarrow> default_order
      | Some order_text \<Rightarrow>
          (case those (map py_int (py_split 44 (py_strip order_text))) of
             None \<Rightarrow> default_order
           | Some order \<Rightarrow> order))"

definition save_card_order :: "project \<Rightarrow> int list \<Rightarrow> project" where
  "save_card_order p order = p\<lparr>order_file := Some (py_join [44] (map py_str order))\<rparr>"

definition swap_cards :: "project \<Rightarrow> int \<Rightarrow> int \<Rightarrow> bool \<times> project" where
  "swap_cards p pos1 pos2 =
     (let order = load_card_order p in
      if 0 \<le> pos1 \<and> pos1 < int (length order) \<and> 0 \<le> pos2 \<and> pos2 < int (length order)
      then (True,
            save_card_order p
              (order[nat pos1 := order ! nat pos2, nat pos2 := order ! nat pos1]))
      else (False, p))"

text \<open>The invariant of an order: 70 entries, every value of 1..70 exactly once.\<close>

definition is_permutation :: "int list \<Rightarrow> bool" where
  "is_permutation order =
     (length order = 70 \<and> list_all (\<lambda>v. count_list order v = 1) [1..70])"

definition get_card_content :: "project \<Rightarrow> int \<Rightarrow> pystr" where
  "get_card_content p card_num =
     (case cards p (card_file card_num) of None \<Rightarrow> [] | Some content \<Rightarrow> content)"

definition save_card_content :: "project \<Rightarrow> int \<Rightarrow> pystr \<Rightarrow> project" where
  "save_card_content p card_num content =
     p\<lparr>cards := (cards p)(card_file card_num \<mapsto> content)\<rparr>"

definition get_card_title_from_file :: "project \<Rightarrow> int \<Rightarrow> pystr" where
  "get_card_title_from_file p card_num =
     (case cards p (card_file card_num) of
        None \<Rightarrow> []
      | Some content \<Rightarrow>
          if py_strip content \<noteq> [] then
            (let first_line = py_strip (hd (py_split 10 content)) in
             if py_startswith first_line [35] then py_strip (drop 1 first_line) else [])
          else [])"

definition is_card_written :: "project \<Rightarrow> int \<Rightarrow> bool" where
  "is_card_written p card_num =
     (let content = get_card_content p card_num;
          lines = map py_strip (filter (\<lambda>line. py_strip line \<noteq> []) (py_split 10 content))
      in length lines > 1 \<or> (length lines = 1 \<and> \<not> py_startswith (hd lines) [35]))"


section \<open>Exports\<close>

text \<open>\<open>enumerate(xs, 1)\<close>.\<close>

definition py_enumerate1 :: "'a list \<Rightarrow> (int \<times> 'a) list" where
  "py_enumerate1 xs = zip [1..int (length xs)] xs"

text \<open>
  The two status glyphs, as the string literals of \<open>src/scriptedt.py\<close> decode: U+00E2
  U+2014 for a written card and U+00E2 U+2014 U+2039 for an unwritten one.  (They are
  the Windows-1252 reading of the UTF-8 bytes of U+25CF and U+25CB, the black and the
  white circle.)
\<close>

definition glyph_written :: pystr where
  "glyph_written = [226, 8212]"

definition glyph_unwritten :: pystr where
  "glyph_unwritten = [226, 8212, 8249]"



text \<open>
  The line that one turn of the loop of \<open>export_outline\<close> writes for position \<open>i\<close> and
  card \<open>card_num\<close>, without the line break that ends it.
\<close>

definition outline_entry :: "project \<Rightarrow> int \<Rightarrow> int \<Rightarrow> pystr" where
  "outline_entry p i card_num =
     (let title = get_card_title_from_file p card_num;
          status = (if is_card_written p card_num then glyph_written else glyph_unwritten)
      in if title \<noteq> []
         then fmt02 i @ lit ''. '' @ status @ lit '' '' @ title
         else fmt02 i @ lit ''. '' @ status @ lit '' [Card '' @ py_str card_num @ lit '']'')"

definition export_outline :: "project \<Rightarrow> pystr" where
  "export_outline p =
     (let order = load_card_order p in
      foldl (\<lambda>outline (i, card_num).
               (let title = get_card_title_from_file p card_num;
                    status = (if is_card_written p card_num then glyph_written
                              else glyph_unwritten)
                in if title \<noteq> []
                   then outline @ fmt02 i @ lit ''. '' @ status @ lit '' '' @ title @ [10]
                   else outline @ fmt02 i @ lit ''. '' @ status @ lit '' [Card ''
                          @ py_str card_num @ lit '']'' @ [10]))
        (lit ''# '' @ name p @ lit '' - Story Outline'' @ [10, 10])
        (py_enumerate1 order))"

section \<open>ProjectManager: the registry of projects\<close>

text \<open>
  The document of \<open>projects.json\<close>: the projects by id, in the order of the dictionary
  (every id once), and the id of the last project.  The state of the registry is the
  document of the file, \<open>None\<close> when the file is missing or is not JSON.
\<close>

record project_entry =
  entry_name :: pystr
  entry_path :: pystr
  last_opened :: pystr

record config =
  projects :: "(pystr \<times> project_entry) list"
  last_project :: "pystr option"

datatype error = ValueError pystr

definition load_config :: "config option \<Rightarrow> config" where
  "load_config config_file =
     (case config_file of
        None \<Rightarrow> \<lparr>projects = [], last_project = None\<rparr>
      | Some config \<Rightarrow> config)"

definition save_config :: "config \<Rightarrow> config option" where
  "save_config config = Some config"

text \<open>
  \<open>remove_project\<close> returns the exception it raises, if any, and the registry file as
  it leaves it.
\<close>

definition remove_project :: "config option \<Rightarrow> pystr \<Rightarrow> error option \<times> config option" where
  "remove_project config_file project_id =
     (let config = load_config config_file in
      if project_id \<in> set (map fst (projects config)) then
        (let projects1 = filter (\<lambda>(k, v). k \<noteq> project_id) (projects config);
             last1 = (if last_project config = Some project_id
                      then (case map fst projects1 of [] \<Rightarrow> None | k # ks \<Rightarrow> Some k)
                      else last_project config)
         in (None, save_config \<lparr>projects = projects1, last_project = last1\<rparr>))
      else
        (Some (ValueError (lit ''Project '' @ [39] @ project_id @ [39] @ lit '' not found'')),
         config_file))"

section \<open>The specification's own wording, and example data\<close>

text \<open>
  The title rule as the specification words it, for one line: if the line, trimmed, is
  not empty and begins with \<open>#\<close>, the rest after that one \<open>#\<close>, trimmed; otherwise the
  empty string.
\<close>

definition spec_title_of_line :: "pystr \<Rightarrow> pystr" where
  "spec_title_of_line line =
     (if py_strip line \<noteq> [] \<and> hd (py_strip line) = 35
      then py_strip (tl (py_strip line)) else [])"

text \<open>
  The written rule as the specification words it: drop the blank lines; written iff more
  than one line remains, or exactly one remains and that line does not start with \<open>#\<close>.
\<close>

definition spec_is_written :: "pystr \<Rightarrow> bool" where
  "spec_is_written content =
     (let remaining = filter (\<lambda>line. py_strip line \<noteq> []) (py_split 10 content)
      in length remaining > 1
         \<or> (length remaining = 1 \<and> \<not> py_startswith (hd remaining) [35]))"

text \<open>
  The outline of a deck of empty cards as the specification words it: one line
  \<open>{pos:02d}. \<circ> [Card {cardNumber}]\<close> per position, with the white circle U+25CB.
\<close>

definition spec_outline_lines :: "int list \<Rightarrow> pystr list" where
  "spec_outline_lines order =
     map (\<lambda>(pos, card_num).
            fmt02 pos @ lit ''. '' @ [9675] @ lit '' [Card '' @ py_str card_num @ lit '']'')
       (py_enumerate1 order)"

text \<open>The line that the source writes for an empty card at a position.\<close>

definition empty_card_line :: "int \<Rightarrow> int \<Rightarrow> pystr" where
  "empty_card_line pos card_num =
     fmt02 pos @ lit ''. '' @ glyph_unwritten @ lit '' [Card '' @ py_str card_num @ lit '']''"

text \<open>
  Example projects, none with a card file: no order file; an order file of three entries;
  an order file of two entries.
\<close>

definition new_project :: project where
  "new_project = \<lparr>name = lit ''Demo'', order_file = None, cards = Map.empty\<rparr>"


definition two_card_project :: project where
  "two_card_project =
     \<lparr>name = lit ''Demo'', order_file = Some (lit ''2,1''), cards = Map.empty\<rparr>"

text \<open>An example registry: two projects, the first of them the last one opened.\<close>

definition demo_registry :: "config option" where
  "demo_registry =
     Some \<lparr>projects =
             [(lit ''my-script'',
               \<lparr>entry_name = lit ''My Script'', entry_path = lit ''/tmp/x'',
                last_opened = lit ''2024-01-01T10:00:00''\<rparr>),
              (lit ''pilot'',
               \<lparr>entry_name = lit ''Pilot'', entry_path = lit ''/tmp/y'',
                last_opened = lit ''2024-01-02T10:00:00''\<rparr>)],
           last_project = Some (lit ''my-script'')\<rparr>"

section \<open>Lemmas on text and on the order file\<close>

lemmas ev = lit_def py_strip_def py_rstrip_def py_isspace_def int_isspace_def py_int_def
  py_nat_literal_def is_digit_def py_startswith_def

lemma extend_first_nonempty [simp]: "extend_first c pieces \<noteq> []"
  by (cases pieces) auto

lemma py_split_nonempty [simp]: "py_split sep s \<noteq> []"
  by (induction s) auto

lemma py_split_no_sep: "sep \<notin> set s \<Longrightarrow> py_split sep s = [s]"
  by (induction s) auto

lemma py_split_append:
  "sep \<notin> set l \<Longrightarrow> py_split sep (l @ sep # rest) = l # py_split sep rest"
  by (induction l) auto

lemma py_split_parts_no_sep: "l \<in> set (py_split sep s) \<Longrightarrow> sep \<notin> set l"
proof (induction s arbitrary: l)
  case Nil
  then show ?case by simp
next
  case (Cons c cs)
  obtain w ws where split: "py_split sep cs = w # ws"
    by (cases "py_split sep cs") auto
  show ?case
  proof (cases "c = sep")
    case True
    with Cons show ?thesis by auto
  next
    case False
    with Cons.prems split have "l = c # w \<or> l \<in> set ws" by simp
    then show ?thesis
      using Cons.IH [of w] Cons.IH [of l] split False by auto
  qed
qed

lemma py_split_join:
  "xs \<noteq> [] \<Longrightarrow> \<forall>x\<in>set xs. sep \<notin> set x \<Longrightarrow> py_split sep (py_join [sep] xs) = xs"
proof (induction xs)
  case Nil
  then show ?case by simp
next
  case (Cons x xs)
  show ?case
  proof (cases xs)
    case Nil
    with Cons.prems show ?thesis by (simp add: py_split_no_sep)
  next
    case (Cons y ys)
    with Cons.prems Cons.IH show ?thesis by (simp add: py_split_append)
  qed
qed




lemma py_strip_subset: "set (py_strip s) \<subseteq> set s"
  unfolding py_strip_def by (auto dest!: set_dropWhileD)

lemma strip_nothing:
  "\<forall>c\<in>set s. \<not> ws c \<Longrightarrow> rev (dropWhile ws (rev (dropWhile ws s))) = s"
  by (metis (no_types, lifting) dropWhile_eq_self_iff hd_in_set rev_rev_ident set_rev)

lemma py_strip_no_space: "\<forall>c\<in>set s. \<not> py_isspace c \<Longrightarrow> py_strip s = s"
  unfolding py_strip_def by (rule strip_nothing)




lemma nat_digits_nonempty: "nat_digits n \<noteq> []"
  by (subst nat_digits.simps) simp

lemma nat_digits_digits: "c \<in> set (nat_digits n) \<Longrightarrow> is_digit c"
proof (induction n rule: nat_digits.induct)
  case (1 n)
  then show ?case
    by (subst (asm) (2) nat_digits.simps) (auto simp: is_digit_def split: if_splits)
qed

lemma py_digits_all_digits:
  "\<forall>c\<in>set ds. is_digit c \<Longrightarrow>
   py_digits acc ds = Some (foldl (\<lambda>a c. a * 10 + (c - 48)) acc ds)"
  by (induction acc ds rule: py_digits.induct) auto

lemma foldl_nat_digits: "foldl (\<lambda>a c. a * 10 + (c - 48)) 0 (nat_digits n) = n"
proof (induction n rule: nat_digits.induct)
  case (1 n)
  show ?case
  proof (cases "n < 10")
    case True
    then show ?thesis by (subst nat_digits.simps) simp
  next
    case False
    with 1 show ?thesis by (subst nat_digits.simps) simp
  qed
qed

lemma py_nat_literal_nat_digits: "py_nat_literal (nat_digits n) = Some n"
proof (cases "nat_digits n")
  case Nil
  then show ?thesis by (simp add: nat_digits_nonempty)
next
  case (Cons c cs)
  have d: "\<forall>x\<in>set (c # cs). is_digit x"
    using nat_digits_digits [of _ n] Cons by auto
  have "py_nat_literal (nat_digits n) = py_digits (c - 48) cs"
    using d by (simp add: py_nat_literal_def Cons)
  also have "\<dots> = Some (foldl (\<lambda>a c. a * 10 + (c - 48)) (c - 48) cs)"
    using d by (simp add: py_digits_all_digits)
  also have "foldl (\<lambda>a c. a * 10 + (c - 48)) (c - 48) cs
             = foldl (\<lambda>a c. a * 10 + (c - 48)) 0 (nat_digits n)"
    by (simp add: Cons)
  finally show ?thesis by (simp add: foldl_nat_digits)
qed

lemma py_str_chars: "c \<in> set (py_str n) \<Longrightarrow> c = 45 \<or> is_digit c"
  by (auto simp: py_str_def dest: nat_digits_digits split: if_splits)

lemma py_str_no_space: "c \<in> set (py_str n) \<Longrightarrow> \<not> py_isspace c"
  using py_str_chars [of c n] by (auto simp: is_digit_def py_isspace_def)

lemma py_str_no_comma: "44 \<notin> set (py_str n)"
  using py_str_chars [of 44 n] by (auto simp: is_digit_def)

lemma py_int_py_str: "py_int (py_str n) = Some n"
proof -
  have s: "rev (dropWhile int_isspace (rev (dropWhile int_isspace (py_str n)))) = py_str n"
    by (rule strip_nothing) (auto simp: int_isspace_def dest: py_str_no_space)
  show ?thesis
  proof (cases "n < 0")
    case True
    then show ?thesis
      by (simp add: py_int_def s) (simp add: py_str_def py_nat_literal_nat_digits)
  next
    case False
    obtain c cs where cs: "nat_digits (nat n) = c # cs"
      using nat_digits_nonempty [of "nat n"] by (cases "nat_digits (nat n)") auto
    then have "is_digit c" using nat_digits_digits [of c "nat n"] by simp
    then have "c \<noteq> 45" "c \<noteq> 43" by (auto simp: is_digit_def)
    moreover have "py_nat_literal (c # cs) = Some (nat n)"
      using py_nat_literal_nat_digits [of "nat n"] cs by simp
    ultimately show ?thesis using False cs
      by (simp add: py_int_def s) (simp add: py_str_def)
  qed
qed

lemma those_map_py_int: "those (map (py_int \<circ> py_str) xs) = Some xs"
  by (induction xs) (auto simp: py_int_py_str)

lemma py_join_chars:
  "c \<in> set (py_join sep xs) \<Longrightarrow> c \<in> set sep \<or> (\<exists>x\<in>set xs. c \<in> set x)"
  by (induction sep xs rule: py_join.induct) auto

lemma load_save_card_order:
  assumes "order \<noteq> []"
  shows "load_card_order (save_card_order p order) = order"
proof -
  let ?text = "py_join [44] (map py_str order)"
  have "\<forall>c\<in>set ?text. \<not> py_isspace c"
  proof
    fix c assume "c \<in> set ?text"
    then have "c = 44 \<or> (\<exists>n. c \<in> set (py_str n))"
      by (auto dest!: py_join_chars)
    then show "\<not> py_isspace c"
      using py_str_no_space by (auto simp: py_isspace_def)
  qed
  then have "py_strip ?text = ?text" by (rule py_strip_no_space)
  moreover have "py_split 44 ?text = map py_str order"
    using assms by (intro py_split_join) (auto simp: py_str_no_comma)
  ultimately show ?thesis
    by (simp add: load_card_order_def save_card_order_def those_map_py_int)
qed








lemma is_permutation_default: "is_permutation default_order"
  by (auto simp: is_permutation_def default_order_def list_all_iff count_mset [symmetric]
      distinct_count_atmost_1 [THEN iffD1])

lemma load_new_project: "load_card_order new_project = default_order"
  by (simp add: load_card_order_def new_project_def)

text \<open>
  Claim C3.  For every valid permutation of 1..70, saving the order and loading it again
  returns exactly that order.
\<close>

theorem load_save_roundtrip:
  "is_permutation order \<Longrightarrow> load_card_order (save_card_order p order) = order"
proof -
  assume "is_permutation order"
  then have "order \<noteq> []" by (auto simp: is_permutation_def)
  then show ?thesis by (rule load_save_card_order)
qed

theorem load_save_roundtrip_witness:
  "is_permutation default_order
   \<and> load_card_order (save_card_order new_project default_order) = default_order"
  using load_save_roundtrip [of default_order new_project] is_permutation_default by simp



text \<open>
  Claim C5.  When \<open>a\<close> or \<open>b\<close> is outside \<open>[0, len(order))\<close>, \<open>swap_cards\<close> returns
  \<open>False\<close> as an ordinary result and leaves the project, and so the persisted order, exactly
  as it was.
\<close>

theorem swap_cards_out_of_range:
  "\<not> (0 \<le> a \<and> a < int (length (load_card_order p)))
     \<or> \<not> (0 \<le> b \<and> b < int (length (load_card_order p)))
   \<Longrightarrow> swap_cards p a b = (False, p)"
  by (auto simp: swap_cards_def Let_def)

theorem swap_cards_out_of_range_witness:
  "\<not> (0 \<le> (70::int) \<and> 70 < int (length (load_card_order new_project)))
   \<and> swap_cards new_project 70 3 = (False, new_project)"
proof -
  have h: "\<not> (0 \<le> (70::int) \<and> 70 < int (length (load_card_order new_project)))"
    by (simp add: load_new_project default_order_def)
  then have "\<not> (0 \<le> (70::int) \<and> 70 < int (length (load_card_order new_project)))
     \<or> \<not> (0 \<le> (3::int) \<and> 3 < int (length (load_card_order new_project)))" ..
  then have "swap_cards new_project 70 3 = (False, new_project)"
    by (rule swap_cards_out_of_range)
  with h show ?thesis ..
qed




section \<open>Titles and the written status\<close>

lemma py_strip_empty_iff: "py_strip s = [] \<longleftrightarrow> (\<forall>c\<in>set s. py_isspace c)"
proof
  assume e: "py_strip s = []"
  show "\<forall>c\<in>set s. py_isspace c"
  proof (rule ccontr)
    assume "\<not> (\<forall>c\<in>set s. py_isspace c)"
    then have ne: "dropWhile py_isspace s \<noteq> []" by (simp add: dropWhile_eq_Nil_conv)
    then have "\<not> py_isspace (hd (dropWhile py_isspace s))" by (rule hd_dropWhile)
    moreover have "hd (dropWhile py_isspace s) \<in> set (rev (dropWhile py_isspace s))"
      using ne by simp
    ultimately have "dropWhile py_isspace (rev (dropWhile py_isspace s)) \<noteq> []"
      by (auto simp: dropWhile_eq_Nil_conv simp del: set_rev)
    with e show False by (simp add: py_strip_def)
  qed
next
  assume "\<forall>c\<in>set s. py_isspace c"
  then show "py_strip s = []" by (auto simp: py_strip_def dest: set_dropWhileD)
qed

lemma hd_py_split_subset: "set (hd (py_split sep s)) \<subseteq> set s"
proof (induction s)
  case Nil
  then show ?case by simp
next
  case (Cons c cs)
  then show ?case by (cases "py_split sep cs") auto
qed

lemma py_startswith_hash: "py_startswith s [35] \<longleftrightarrow> s \<noteq> [] \<and> hd s = 35"
  by (cases s) (auto simp: py_startswith_def)

lemma title_of_content:
  "get_card_title_from_file p n = spec_title_of_line (hd (py_split 10 (get_card_content p n)))"
proof (cases "cards p (card_file n)")
  case None
  then show ?thesis
    by (simp add: get_card_title_from_file_def get_card_content_def spec_title_of_line_def
        py_strip_def)
next
  case (Some content)
  show ?thesis
  proof (cases "py_strip content = []")
    case True
    then have "\<forall>c\<in>set (hd (py_split 10 content)). py_isspace c"
      using hd_py_split_subset [of 10 content] by (auto simp: py_strip_empty_iff)
    then have "py_strip (hd (py_split 10 content)) = []" by (simp add: py_strip_empty_iff)
    with True Some show ?thesis
      by (simp add: get_card_title_from_file_def get_card_content_def spec_title_of_line_def)
  next
    case False
    with Some show ?thesis
      by (simp add: get_card_title_from_file_def get_card_content_def spec_title_of_line_def
          py_startswith_hash drop_Suc)
  qed
qed

lemmas ev2 = get_card_title_from_file_def get_card_content_def save_card_content_def
  is_card_written_def spec_is_written_def spec_title_of_line_def

lemma hd_map_filter:
  "length (filter P xs) = 1 \<Longrightarrow> hd (map f (filter P xs)) = f (hd (filter P xs))"
  by (cases "filter P xs") auto

text \<open>
  Claim C6.  The title of a card depends on the first line of its content only: if that
  line, trimmed, is not empty and begins with \<open>#\<close>, the title is the rest after that one
  \<open>#\<close>, trimmed (so \<open>## X\<close> gives \<open># X\<close>); otherwise it is the empty string.  The titles
  of \<open># Hello\nbody\<close>, of \<open>plain text\<close> and of the empty content are \<open>Hello\<close>, the empty
  string and the empty string.
\<close>

theorem title_from_first_line:
  "get_card_title_from_file p n = spec_title_of_line (hd (py_split 10 (get_card_content p n)))
   \<and> get_card_title_from_file (save_card_content p n (lit ''# Hello'' @ [10] @ lit ''body'')) n
       = lit ''Hello''
   \<and> get_card_title_from_file (save_card_content p n (lit ''plain text'')) n = []
   \<and> get_card_title_from_file (save_card_content p n []) n = []
   \<and> get_card_title_from_file (save_card_content p n (lit ''## X'')) n = lit ''# X''"
proof -
  have "get_card_title_from_file (save_card_content p n (lit ''# Hello'' @ [10] @ lit ''body'')) n
       = lit ''Hello''"
    by (simp add: ev ev2)
  moreover have "get_card_title_from_file (save_card_content p n (lit ''plain text'')) n = []"
    by (simp add: ev ev2)
  moreover have "get_card_title_from_file (save_card_content p n []) n = []"
    by (simp add: ev ev2)
  moreover have "get_card_title_from_file (save_card_content p n (lit ''## X'')) n = lit ''# X''"
    by (simp add: ev ev2)
  ultimately show ?thesis using title_of_content by simp
qed

text \<open>
  Claim C7, as the code has it.  A card is written iff, after the blank lines are
  dropped, more than one line remains, or exactly one line remains and that line, trimmed,
  does not start with \<open>#\<close>.  \<open># Title\n\<close> is not written; \<open># Title\nSome body\<close> and
  \<open>no header, one line\<close> are.
\<close>

theorem is_written_rule:
  "is_card_written p n =
     (let remaining = filter (\<lambda>line. py_strip line \<noteq> []) (py_split 10 (get_card_content p n))
      in length remaining > 1
         \<or> (length remaining = 1 \<and> \<not> py_startswith (py_strip (hd remaining)) [35]))
   \<and> is_card_written (save_card_content p n (lit ''# Title'' @ [10])) n = False
   \<and> is_card_written (save_card_content p n (lit ''# Title'' @ [10] @ lit ''Some body'')) n = True
   \<and> is_card_written (save_card_content p n (lit ''no header, one line'')) n = True"
proof -
  have "is_card_written (save_card_content p n (lit ''# Title'' @ [10])) n = False"
    by (simp add: ev ev2)
  moreover have "is_card_written (save_card_content p n (lit ''# Title'' @ [10] @ lit ''Some body'')) n = True"
    by (simp add: ev ev2)
  moreover have "is_card_written (save_card_content p n (lit ''no header, one line'')) n = True"
    by (simp add: ev ev2)
  moreover have "is_card_written p n =
     (let remaining = filter (\<lambda>line. py_strip line \<noteq> []) (py_split 10 (get_card_content p n))
      in length remaining > 1
         \<or> (length remaining = 1 \<and> \<not> py_startswith (py_strip (hd remaining)) [35]))"
    by (auto simp: is_card_written_def Let_def hd_map_filter)
  ultimately show ?thesis by simp
qed

text \<open>
  Claim C7 as stated fails on a header line that is indented: the one remaining line
  starts with a blank, not with \<open>#\<close>, so the claim's rule says written, and the code,
  which trims the line first, says not written.
\<close>

theorem is_written_indented_header_counterexample:
  "spec_is_written (lit ''  # Title'')
   \<and> \<not> is_card_written (save_card_content new_project 1 (lit ''  # Title'')) 1"
  by (simp add: ev ev2)

section \<open>Renaming a card that has no file\<close>








section \<open>The outline export\<close>

lemma foldl_append_lines:
  "foldl (\<lambda>text (i, n). text @ f i n) init xs = init @ concat (map (\<lambda>(i, n). f i n) xs)"
  by (induction xs arbitrary: init) auto

lemma export_outline_text:
  "export_outline p =
     lit ''# '' @ name p @ lit '' - Story Outline'' @ [10, 10]
     @ concat (map (\<lambda>(i, n). outline_entry p i n @ [10]) (py_enumerate1 (load_card_order p)))"
proof -
  have step: "(\<lambda>outline (i, card_num).
               (let title = get_card_title_from_file p card_num;
                    status = (if is_card_written p card_num then glyph_written
                              else glyph_unwritten)
                in if title \<noteq> []
                   then outline @ fmt02 i @ lit ''. '' @ status @ lit '' '' @ title @ [10]
                   else outline @ fmt02 i @ lit ''. '' @ status @ lit '' [Card ''
                          @ py_str card_num @ lit '']'' @ [10]))
        = (\<lambda>outline (i, card_num). outline @ (outline_entry p i card_num @ [10]))"
    by (intro ext) (simp add: outline_entry_def Let_def split: prod.splits)
  show ?thesis
    unfolding export_outline_def Let_def step [unfolded Let_def] foldl_append_lines
    by simp
qed

lemma fmt02_chars: "c \<in> set (fmt02 i) \<Longrightarrow> c = 45 \<or> is_digit c"
  by (auto simp: fmt02_def is_digit_def dest: py_str_chars split: if_splits)

lemma title_no_newline: "10 \<notin> set (get_card_title_from_file p n)"
proof -
  have "hd (py_split 10 (get_card_content p n)) \<in> set (py_split 10 (get_card_content p n))"
    by simp
  then have line: "10 \<notin> set (hd (py_split 10 (get_card_content p n)))"
    by (rule py_split_parts_no_sep)
  have "set (get_card_title_from_file p n) \<subseteq> set (hd (py_split 10 (get_card_content p n)))"
  proof (cases "py_strip (hd (py_split 10 (get_card_content p n)))")
    case Nil
    then show ?thesis by (simp add: title_of_content spec_title_of_line_def)
  next
    case (Cons c cs)
    have "set (py_strip cs) \<subseteq> set cs" by (rule py_strip_subset)
    also have "\<dots> \<subseteq> set (py_strip (hd (py_split 10 (get_card_content p n))))"
      using Cons by auto
    also have "\<dots> \<subseteq> set (hd (py_split 10 (get_card_content p n)))"
      by (rule py_strip_subset)
    finally show ?thesis using Cons by (auto simp: title_of_content spec_title_of_line_def)
  qed
  with line show ?thesis by auto
qed

lemma outline_entry_no_newline: "10 \<notin> set (outline_entry p i n)"
proof -
  have "10 \<notin> set (fmt02 i)" using fmt02_chars [of 10 i] by (auto simp: is_digit_def)
  moreover have "10 \<notin> set (py_str n)" using py_str_chars [of 10 n] by (auto simp: is_digit_def)
  ultimately show ?thesis
    using title_no_newline [of p n]
    by (simp add: outline_entry_def Let_def lit_def glyph_written_def glyph_unwritten_def)
qed

lemma count_newlines_lines:
  "\<forall>(i, n)\<in>set xs. 10 \<notin> set (f i n) \<Longrightarrow>
   count_list (concat (map (\<lambda>(i, n). f i n @ [10]) xs)) (10::nat) = length xs"
  by (induction xs) (auto simp: count_list_0_iff)

lemma length_py_enumerate1: "length (py_enumerate1 xs) = length xs"
  by (simp add: py_enumerate1_def)

lemma map_snd_py_enumerate1: "map snd (py_enumerate1 xs) = xs"
  by (simp add: py_enumerate1_def)

lemma map_fst_py_enumerate1: "map fst (py_enumerate1 xs) = [1..int (length xs)]"
  by (simp add: py_enumerate1_def)

lemma outline_entry_empty:
  "get_card_content p n = [] \<Longrightarrow> outline_entry p i n = empty_card_line i n"
proof -
  assume e: "get_card_content p n = []"
  have blank: "py_strip [] = []" by (simp add: py_strip_def)
  have "get_card_title_from_file p n = []"
    by (simp add: title_of_content e spec_title_of_line_def blank)
  moreover have "\<not> is_card_written p n"
    by (simp add: is_card_written_def e blank)
  ultimately show ?thesis by (simp add: outline_entry_def empty_card_line_def)
qed

lemma load_two_card_project: "load_card_order two_card_project = [2, 1]"
  by (simp add: ev load_card_order_def two_card_project_def)

lemma name_two_card_project: "name two_card_project = lit ''Demo''"
  by (simp add: two_card_project_def)

lemma enumerate_two: "py_enumerate1 [2, 1 :: int] = [(1, 2), (2, 1)]"
  by (simp add: py_enumerate1_def upto_rec1)

lemmas ev_str = py_str_def fmt02_def nat_digits.simps

text \<open>
  Claim C2, as the code has it.  The outline is the header line \<open># {name} - Story Outline\<close>
  and an empty line, followed by one line for every position of the order, in the order
  of the positions: the lines after the header hold as many line breaks as the order has
  positions, 70 for an order of 70.  On a deck whose cards are all empty the line for
  position \<open>pos\<close> with card \<open>cardNumber\<close> is \<open>{pos:02d}. {glyph} [Card {cardNumber}]\<close>,
  with the glyph that the source writes for an unwritten card.
\<close>

theorem export_outline_lines:
  assumes "\<forall>n\<in>set (load_card_order p). get_card_content p n = []"
  shows "export_outline p =
           lit ''# '' @ name p @ lit '' - Story Outline'' @ [10, 10]
           @ concat (map (\<lambda>(i, n). empty_card_line i n @ [10])
                       (py_enumerate1 (load_card_order p)))
         \<and> export_outline q =
           lit ''# '' @ name q @ lit '' - Story Outline'' @ [10, 10]
           @ concat (map (\<lambda>(i, n). outline_entry q i n @ [10])
                       (py_enumerate1 (load_card_order q)))
         \<and> count_list (concat (map (\<lambda>(i, n). outline_entry q i n @ [10])
                                  (py_enumerate1 (load_card_order q)))) 10
           = length (load_card_order q)
         \<and> map fst (py_enumerate1 (load_card_order q)) = [1..int (length (load_card_order q))]
         \<and> map snd (py_enumerate1 (load_card_order q)) = load_card_order q"
proof -
  have same: "map (\<lambda>(i, n). outline_entry p i n @ [10]) (py_enumerate1 (load_card_order p))
        = map (\<lambda>(i, n). empty_card_line i n @ [10]) (py_enumerate1 (load_card_order p))"
  proof (rule map_cong [OF refl])
    fix x assume "x \<in> set (py_enumerate1 (load_card_order p))"
    then have "snd x \<in> set (load_card_order p)"
      by (metis (no_types, lifting) imageI list.set_map map_snd_py_enumerate1)
    with assms have "get_card_content p (snd x) = []" by simp
    then show "(case x of (i, n) \<Rightarrow> outline_entry p i n @ [10])
               = (case x of (i, n) \<Rightarrow> empty_card_line i n @ [10])"
      by (cases x) (simp add: outline_entry_empty)
  qed
  have "export_outline p =
           lit ''# '' @ name p @ lit '' - Story Outline'' @ [10, 10]
           @ concat (map (\<lambda>(i, n). empty_card_line i n @ [10])
                       (py_enumerate1 (load_card_order p)))"
    unfolding export_outline_text same by (rule refl)
  moreover have "count_list (concat (map (\<lambda>(i, n). outline_entry q i n @ [10])
                                  (py_enumerate1 (load_card_order q)))) 10
           = length (load_card_order q)"
    by (subst count_newlines_lines) (auto simp: outline_entry_no_newline length_py_enumerate1)
  ultimately show ?thesis
    by (simp add: export_outline_text map_fst_py_enumerate1 map_snd_py_enumerate1)
qed

theorem export_outline_lines_witness:
  "list_all (\<lambda>n. get_card_content two_card_project n = []) (load_card_order two_card_project)
   \<and> export_outline two_card_project =
       lit ''# Demo - Story Outline'' @ [10, 10]
       @ lit ''01. '' @ glyph_unwritten @ lit '' [Card 2]'' @ [10]
       @ lit ''02. '' @ glyph_unwritten @ lit '' [Card 1]'' @ [10]"
proof -
  have h: "\<forall>n\<in>set (load_card_order two_card_project). get_card_content two_card_project n = []"
    by (simp add: get_card_content_def two_card_project_def)
  have "export_outline two_card_project =
           lit ''# '' @ name two_card_project @ lit '' - Story Outline'' @ [10, 10]
           @ concat (map (\<lambda>(i, n). empty_card_line i n @ [10])
                       (py_enumerate1 (load_card_order two_card_project)))"
    using export_outline_lines [OF h] by (rule conjunct1)
  then have "export_outline two_card_project =
       lit ''# Demo - Story Outline'' @ [10, 10]
       @ lit ''01. '' @ glyph_unwritten @ lit '' [Card 2]'' @ [10]
       @ lit ''02. '' @ glyph_unwritten @ lit '' [Card 1]'' @ [10]"
    by (simp add: load_two_card_project enumerate_two empty_card_line_def ev_str lit_def
        name_two_card_project)
  with h show ?thesis by (simp add: list_all_iff)
qed

text \<open>
  Claim C2 as stated fails: for the order 1..70 over empty cards the outline has 72 lines,
  not 70, and its first line is the header, not the line of position 1.
\<close>

theorem export_outline_header_counterexample:
  "length (load_card_order new_project) = 70
   \<and> list_all (\<lambda>n. get_card_content new_project n = []) (load_card_order new_project)
   \<and> count_list (export_outline new_project) 10 = 72
   \<and> hd (py_split 10 (export_outline new_project)) = lit ''# Demo - Story Outline''
   \<and> hd (spec_outline_lines (load_card_order new_project))
       = lit ''01. '' @ [9675] @ lit '' [Card 1]''"
proof -
  let ?body = "concat (map (\<lambda>(i, n). outline_entry new_project i n @ [10])
                 (py_enumerate1 (load_card_order new_project)))"
  have len: "length (load_card_order new_project) = 70"
    by (simp add: load_new_project default_order_def)
  have empty: "list_all (\<lambda>n. get_card_content new_project n = []) (load_card_order new_project)"
    by (simp add: list_all_iff get_card_content_def new_project_def)
  have out: "export_outline new_project = lit ''# Demo - Story Outline'' @ 10 # 10 # ?body"
    by (simp add: export_outline_text new_project_def lit_def)
  have "count_list ?body 10 = length (py_enumerate1 (load_card_order new_project))"
    by (rule count_newlines_lines) (auto simp: outline_entry_no_newline)
  then have body: "count_list ?body 10 = 70"
    by (simp add: length_py_enumerate1 len)
  have count: "count_list (export_outline new_project) 10 = 72"
    unfolding out by (simp add: body lit_def)
  have "10 \<notin> set (lit ''# Demo - Story Outline'')" by (simp add: lit_def)
  then have "py_split 10 (lit ''# Demo - Story Outline'' @ 10 # 10 # ?body)
             = lit ''# Demo - Story Outline'' # py_split 10 (10 # ?body)"
    by (rule py_split_append)
  then have first: "hd (py_split 10 (export_outline new_project)) = lit ''# Demo - Story Outline''"
    unfolding out by simp
  have "py_enumerate1 default_order = (1, 1) # zip [2..70] [2..70]"
    by (simp add: py_enumerate1_def default_order_def upto_rec1 [of 1 70])
  then have spec: "hd (spec_outline_lines (load_card_order new_project))
       = lit ''01. '' @ [9675] @ lit '' [Card 1]''"
    by (simp add: spec_outline_lines_def load_new_project ev_str lit_def)
  from len empty count first spec show ?thesis by simp
qed

section \<open>The screenplay and Fountain exports\<close>







section \<open>Removing a project from the registry\<close>

lemma keys_filter_neq:
  "map fst (filter (\<lambda>(k, v). k \<noteq> i) xs) = removeAll i (map fst xs)"
  by (induction xs) auto

lemma map_of_filter_neq:
  "map_of (filter (\<lambda>(k, v). k \<noteq> i) xs) = (map_of xs)(i := None)"
  by (induction xs) (auto simp: fun_eq_iff)

text \<open>
  Claim C8.  \<open>remove_project\<close> raises the error, and leaves the registry file as it was,
  exactly when the id is not in the registry.  When the id is there, the call returns
  without an error and writes the registry without that entry, the other entries and
  their order unchanged; if the id was the last project, the last project becomes one of
  the ids that remain, or null when none remains, and otherwise it stays what it was.
\<close>

theorem remove_project_registry:
  "(if project_id \<in> set (map fst (projects (load_config reg)))
    then fst (remove_project reg project_id) = None
       \<and> snd (remove_project reg project_id) \<noteq> None
       \<and> map fst (projects (load_config (snd (remove_project reg project_id))))
           = removeAll project_id (map fst (projects (load_config reg)))
       \<and> map_of (projects (load_config (snd (remove_project reg project_id))))
           = (map_of (projects (load_config reg)))(project_id := None)
       \<and> (if last_project (load_config reg) = Some project_id
          then (if projects (load_config (snd (remove_project reg project_id))) = []
                then last_project (load_config (snd (remove_project reg project_id))) = None
                else (\<exists>k\<in>set (map fst (projects (load_config (snd (remove_project reg project_id))))).
                        last_project (load_config (snd (remove_project reg project_id))) = Some k))
          else last_project (load_config (snd (remove_project reg project_id)))
                 = last_project (load_config reg))
    else remove_project reg project_id
           = (Some (ValueError (lit ''Project '' @ [39] @ project_id @ [39] @ lit '' not found'')),
              reg))"
proof (cases "project_id \<in> set (map fst (projects (load_config reg)))")
  case False
  then show ?thesis by (simp add: remove_project_def)
next
  case True
  let ?rest = "filter (\<lambda>(k, v). k \<noteq> project_id) (projects (load_config reg))"
  let ?last = "if last_project (load_config reg) = Some project_id
               then (case map fst ?rest of [] \<Rightarrow> None | k # ks \<Rightarrow> Some k)
               else last_project (load_config reg)"
  have r: "remove_project reg project_id
           = (None, Some \<lparr>projects = ?rest, last_project = ?last\<rparr>)"
    using True by (simp add: remove_project_def Let_def save_config_def)
  have after: "load_config (snd (remove_project reg project_id))
               = \<lparr>projects = ?rest, last_project = ?last\<rparr>"
    by (simp add: r load_config_def)
  have c1: "fst (remove_project reg project_id) = None" by (simp add: r)
  have c2: "snd (remove_project reg project_id) \<noteq> None" by (simp add: r)
  have c3: "map fst (projects (load_config (snd (remove_project reg project_id))))
           = removeAll project_id (map fst (projects (load_config reg)))"
    by (simp add: after keys_filter_neq)
  have c4: "map_of (projects (load_config (snd (remove_project reg project_id))))
           = (map_of (projects (load_config reg)))(project_id := None)"
    by (simp add: after map_of_filter_neq)
  have c5: "(if last_project (load_config reg) = Some project_id
          then (if projects (load_config (snd (remove_project reg project_id))) = []
                then last_project (load_config (snd (remove_project reg project_id))) = None
                else (\<exists>k\<in>set (map fst (projects (load_config (snd (remove_project reg project_id))))).
                        last_project (load_config (snd (remove_project reg project_id))) = Some k))
          else last_project (load_config (snd (remove_project reg project_id)))
                 = last_project (load_config reg))"
    unfolding after by (cases ?rest) auto
  show ?thesis
    by (subst if_P [OF True]) (intro conjI c1 c2 c3 c4 c5)
qed

theorem remove_project_registry_witness:
  "lit ''my-script'' \<in> set (map fst (projects (load_config demo_registry)))
   \<and> last_project (load_config demo_registry) = Some (lit ''my-script'')
   \<and> fst (remove_project demo_registry (lit ''my-script'')) = None
   \<and> map fst (projects (load_config (snd (remove_project demo_registry (lit ''my-script'')))))
       = [lit ''pilot'']
   \<and> last_project (load_config (snd (remove_project demo_registry (lit ''my-script''))))
       = Some (lit ''pilot'')"
proof -
  have h1: "lit ''my-script'' \<in> set (map fst (projects (load_config demo_registry)))"
    by (simp add: demo_registry_def load_config_def)
  have h2: "last_project (load_config demo_registry) = Some (lit ''my-script'')"
    by (simp add: demo_registry_def load_config_def)
  have keys: "removeAll (lit ''my-script'') (map fst (projects (load_config demo_registry)))
              = [lit ''pilot'']"
    by (simp add: demo_registry_def load_config_def lit_def)
  note t = remove_project_registry [of "lit ''my-script''" demo_registry, unfolded if_P [OF h1]]
  let ?after = "load_config (snd (remove_project demo_registry (lit ''my-script'')))"
  note ok = t [THEN conjunct1]
  have keys_after: "map fst (projects ?after) = [lit ''pilot'']"
    using t [THEN conjunct2, THEN conjunct2, THEN conjunct1] keys by (rule trans)
  then have nonempty: "projects ?after \<noteq> []" by auto
  note t [THEN conjunct2, THEN conjunct2, THEN conjunct2, THEN conjunct2,
      unfolded if_P [OF h2] if_not_P [OF nonempty] keys_after]
  then have "last_project ?after = Some (lit ''pilot'')" by simp
  with h1 h2 ok keys_after show ?thesis by simp
qed

end
